theory Spec2Isabelle
  imports Main "HOL-Library.AList" "HOL-Library.Sublist"
begin

section \<open>Values of the host language\<close>

text \<open>
  The module \<^verbatim>\<open>save-progress.js\<close> keeps its data as plain script values: the log
  buffer is an array of objects, the note registry an object used as a dictionary, and
  both imported files and cross-window messages are arbitrary values. They are modelled
  by one datatype. Objects are association lists in insertion order; numbers are the
  integers (timestamps and version numbers), so fractions, NaN and the exponent notation
  of very large numbers are outside the model. What an object inherits from
  \<^verbatim>\<open>Object.prototype\<close> is kept apart from its own properties, in the state of the hub.
\<close>

datatype jsval =
    JUndefined
  | JNull
  | JBool bool
  | JNum int
  | JStr string
  | JArr "jsval list"
  | JObj "(string \<times> jsval) list"

datatype js_error = TypeError | SyntaxError | RangeError

text \<open>Conversion to a boolean, as done by \<^verbatim>\<open>if (v)\<close> and \<^verbatim>\<open>!v\<close>.\<close>

fun truthy :: "jsval \<Rightarrow> bool" where
  "truthy JUndefined = False"
| "truthy JNull = False"
| "truthy (JBool b) = b"
| "truthy (JNum n) = (n \<noteq> 0)"
| "truthy (JStr s) = (s \<noteq> [])"
| "truthy (JArr xs) = True"
| "truthy (JObj ps) = True"

text \<open>\<^verbatim>\<open>typeof v === "object"\<close>: true of null, arrays and objects.\<close>

fun typeof_object :: "jsval \<Rightarrow> bool" where
  "typeof_object JNull = True"
| "typeof_object (JArr xs) = True"
| "typeof_object (JObj ps) = True"
| "typeof_object v = False"

fun nullish :: "jsval \<Rightarrow> bool" where
  "nullish JUndefined = True"
| "nullish JNull = True"
| "nullish v = False"

text \<open>
  Reading a named property \<^verbatim>\<open>v.name\<close> of a value that is neither null nor undefined.
  Only objects carry the names the module reads (\<^verbatim>\<open>type\<close>, \<^verbatim>\<open>lvl\<close>, \<^verbatim>\<open>notes\<close>, ...);
  on a primitive or an array the result is undefined. Reading a property of null or
  undefined throws, which each caller checks with \<open>nullish\<close> first.
\<close>

fun get_field :: "jsval \<Rightarrow> string \<Rightarrow> jsval" where
  "get_field (JObj ps) name = (case map_of ps name of None \<Rightarrow> JUndefined | Some v \<Rightarrow> v)"
| "get_field v name = JUndefined"

text \<open>
  Assigning a named property \<^verbatim>\<open>v.name = x\<close>. The module runs in strict mode, where the
  assignment throws on a primitive as well as on null and undefined. A named property
  set on an array is not one of its elements and is not represented.
\<close>

fun set_field :: "jsval \<Rightarrow> string \<Rightarrow> jsval \<Rightarrow> js_error + jsval" where
  "set_field (JObj ps) name x = Inr (JObj (AList.update name x ps))"
| "set_field (JArr xs) name x = Inr (JArr xs)"
| "set_field v name x = Inl TypeError"

subsection \<open>Conversion to text\<close>

definition digits :: string where
  "digits = ''0123456789''"

function show_nat :: "nat \<Rightarrow> string" where
  "show_nat n = (if n < 10 then [digits ! n] else show_nat (n div 10) @ [digits ! (n mod 10)])"
  by pat_completeness auto
termination
  by (relation "measure (\<lambda>n. n)") auto

declare show_nat.simps [simp del]

definition show_int :: "int \<Rightarrow> string" where
  "show_int i = (if i < 0 then CHR ''-'' # show_nat (nat (- i)) else show_nat (nat i))"

fun join :: "string \<Rightarrow> string list \<Rightarrow> string" where
  "join sep [] = []"
| "join sep [x] = x"
| "join sep (x # y # zs) = x @ sep @ join sep (y # zs)"

text \<open>\<^verbatim>\<open>String(v)\<close>, also the conversion inside a template literal and of a property key.\<close>

fun to_string :: "jsval \<Rightarrow> string" where
  "to_string JUndefined = ''undefined''"
| "to_string JNull = ''null''"
| "to_string (JBool b) = (if b then ''true'' else ''false'')"
| "to_string (JNum n) = show_int n"
| "to_string (JStr s) = s"
| "to_string (JArr xs) = join '','' (map (\<lambda>x. if nullish x then [] else to_string x) xs)"
| "to_string (JObj ps) = ''[object Object]''"

text \<open>
  \<^verbatim>\<open>JSON.stringify\<close> of a string: quotes around it, and the quote, the backslash and
  the control characters escaped. No other character is changed.
\<close>

definition hex_digits :: string where
  "hex_digits = ''0123456789abcdef''"

definition json_escape :: "char \<Rightarrow> string" where
  "json_escape c =
     (if c = CHR 0x22 then [CHR 0x5C, CHR 0x22]
      else if c = CHR 0x5C then [CHR 0x5C, CHR 0x5C]
      else if c = CHR 0x08 then [CHR 0x5C, CHR ''b'']
      else if c = CHR 0x0C then [CHR 0x5C, CHR ''f'']
      else if c = CHR 0x0A then [CHR 0x5C, CHR ''n'']
      else if c = CHR 0x0D then [CHR 0x5C, CHR ''r'']
      else if c = CHR 0x09 then [CHR 0x5C, CHR ''t'']
      else if (of_char c :: nat) < 32
        then [CHR 0x5C, CHR ''u'', CHR ''0'', CHR ''0'',
              hex_digits ! ((of_char c :: nat) div 16), hex_digits ! ((of_char c :: nat) mod 16)]
      else [c])"

definition json_quote :: "string \<Rightarrow> string" where
  "json_quote s = CHR 0x22 # concat (map json_escape s) @ [CHR 0x22]"

text \<open>
  \<^verbatim>\<open>JSON.stringify(v)\<close>; \<open>None\<close> where the host returns undefined instead of a text.
  Inside an array an undefined element is written as null, inside an object a property
  whose value is undefined is left out.
\<close>

fun json_text :: "jsval \<Rightarrow> string option" where
  "json_text JUndefined = None"
| "json_text JNull = Some ''null''"
| "json_text (JBool b) = Some (if b then ''true'' else ''false'')"
| "json_text (JNum n) = Some (show_int n)"
| "json_text (JStr s) = Some (json_quote s)"
| "json_text (JArr xs) =
     Some (''['' @ join '','' (map (\<lambda>x. case json_text x of None \<Rightarrow> ''null'' | Some t \<Rightarrow> t) xs) @ '']'')"
| "json_text (JObj ps) =
     Some (''{'' @ join '',''
        (concat (map (\<lambda>p. case json_text (snd p) of None \<Rightarrow> []
                          | Some t \<Rightarrow> [json_quote (fst p) @ '':'' @ t]) ps)) @ ''}'')"

section \<open>State of the hub window\<close>

text \<open>
  The module-level variables of \<^verbatim>\<open>SaveProgressModule\<close> and the pieces of its
  environment that it reads or writes. \<open>localStorage\<close> holds, for each key, the value
  last handed to \<^verbatim>\<open>saveJSON\<close> (the serialised text is not modelled, and a write is
  taken to succeed); \<open>storage_log\<close> is the history of these writes, oldest first.
  \<open>dbg_items\<close> is the launcher's catalogue as parsed from its own storage key, \<open>None\<close>
  when that text does not parse. \<open>noteSaveTimer\<close> is the time at which the pending
  note-saving timeout is due, \<open>None\<close> when none is pending. \<open>alerts\<close> are the dialogs
  shown to the user and \<open>thrown\<close> the exceptions that left a handler uncaught.
  \<open>objectPrototype\<close> holds the data properties that handlers of the module have put on
  \<^verbatim>\<open>Object.prototype\<close>, from where every object of the window inherits them; its
  native members are listed in \<open>object_prototype_names\<close> below.
\<close>

datatype factory = External "string \<Rightarrow> string \<Rightarrow> bool \<Rightarrow> string" | Wrapper

datatype notice = ImportSuccessful | InvalidSaveFile | Cleared

record hub =
  consoleLogs :: "jsval list"
  notesStore :: "(string \<times> jsval) list"
  localStorage :: "string \<rightharpoonup> jsval"
  storage_log :: "(string \<times> jsval) list"
  dbg_items :: "jsval option"
  activeTab :: string
  consoleFilter :: string
  noteSaveTimer :: "nat option"
  currentNoteKey :: "string option"
  injectEnabled :: bool
  makeBlankerHTML :: "factory option"
  origMakeBlankerHTML :: "factory option"
  alerts :: "notice list"
  thrown :: "js_error list"
  objectPrototype :: "(string \<times> jsval) list"

definition KEY_CONSOLE :: string where
  "KEY_CONSOLE = ''dbg_console_v1''"

definition KEY_NOTES :: string where
  "KEY_NOTES = ''dbg_notes_v1''"

definition MAX_LOGS :: nat where
  "MAX_LOGS = 400"

definition saveJSON :: "string \<Rightarrow> jsval \<Rightarrow> hub \<Rightarrow> hub" where
  "saveJSON key val s =
     s\<lparr>localStorage := (localStorage s)(key \<mapsto> val), storage_log := storage_log s @ [(key, val)]\<rparr>"

definition saveNotes :: "hub \<Rightarrow> hub" where
  "saveNotes s = saveJSON KEY_NOTES (JObj (notesStore s)) s"

definition alert :: "notice \<Rightarrow> hub \<Rightarrow> hub" where
  "alert n s = s\<lparr>alerts := alerts s @ [n]\<rparr>"

section \<open>Log buffer\<close>

text \<open>
  \<^verbatim>\<open>consoleLogs.push(entry);
  if (consoleLogs.length > MAX_LOGS) consoleLogs.splice(0, consoleLogs.length - MAX_LOGS);\<close>
\<close>

definition push_log :: "jsval \<Rightarrow> jsval list \<Rightarrow> jsval list" where
  "push_log entry logs =
     (let logs' = logs @ [entry]
      in if length logs' > MAX_LOGS then drop (length logs' - MAX_LOGS) logs' else logs')"

definition log_entry :: "nat \<Rightarrow> jsval \<Rightarrow> string \<Rightarrow> jsval" where
  "log_entry now lvl msg = JObj [(''t'', JNum (int now)), (''lvl'', lvl), (''msg'', JStr msg)]"

text \<open>\<^verbatim>\<open>xs.slice(-n)\<close>: the last \<open>n\<close> elements, all of them when there are fewer.\<close>

definition last_n :: "nat \<Rightarrow> 'a list \<Rightarrow> 'a list" where
  "last_n n xs = drop (length xs - n) xs"

text \<open>
  \<^verbatim>\<open>renderConsoleLogs\<close> rebuilds the list shown in the panel from the whole buffer: the
  entries of the selected level (all of them when no filter is set), the last 120 of
  those. It reads \<^verbatim>\<open>lvl\<close> of every entry it looks at, which throws on a null entry.
  The result is the list shown, or the exception.
\<close>

definition renderConsoleLogs :: "hub \<Rightarrow> js_error + jsval list" where
  "renderConsoleLogs s =
     (if consoleFilter s \<noteq> [] then
        (if list_ex nullish (consoleLogs s) then Inl TypeError
         else Inr (last_n 120
                (filter (\<lambda>l. get_field l ''lvl'' = JStr (consoleFilter s)) (consoleLogs s))))
      else
        (if list_ex nullish (last_n 120 (consoleLogs s)) then Inl TypeError
         else Inr (last_n 120 (consoleLogs s))))"

text \<open>A call of \<^verbatim>\<open>renderConsoleLogs\<close> at the end of a handler that does not catch.\<close>

definition refresh_console :: "hub \<Rightarrow> hub" where
  "refresh_console s =
     (case renderConsoleLogs s of Inl e \<Rightarrow> s\<lparr>thrown := thrown s @ [e]\<rparr> | Inr shown \<Rightarrow> s)"

text \<open>
  The wrapper installed on each of \<^verbatim>\<open>console.log/warn/error/info/debug\<close>. The call of
  the original method is output only and leaves the state alone. Each argument is turned
  into text (\<^verbatim>\<open>JSON.stringify\<close> for objects, \<^verbatim>\<open>String\<close> otherwise; on the values of the
  model \<^verbatim>\<open>JSON.stringify\<close> does not throw) and the texts are joined by one space.
\<close>

definition arg_text :: "jsval \<Rightarrow> string" where
  "arg_text a =
     (if typeof_object a then (case json_text a of None \<Rightarrow> [] | Some t \<Rightarrow> t) else to_string a)"

definition console_method :: "string \<Rightarrow> jsval list \<Rightarrow> nat \<Rightarrow> hub \<Rightarrow> hub" where
  "console_method method args now s =
     (let entry = log_entry now (JStr method) (join '' '' (map arg_text args));
          s1 = s\<lparr>consoleLogs := push_log entry (consoleLogs s)\<rparr>;
          s2 = saveJSON KEY_CONSOLE (JArr (consoleLogs s1)) s1
      in refresh_console s2)"

text \<open>
  \<^verbatim>\<open>sp-console-clear\<close>:
  \<^verbatim>\<open>consoleLogs.length = 0; saveJSON(KEY_CONSOLE, []); renderConsoleLogs();\<close>
\<close>

definition console_clear :: "hub \<Rightarrow> hub" where
  "console_clear s = refresh_console (saveJSON KEY_CONSOLE (JArr []) (s\<lparr>consoleLogs := []\<rparr>))"

section \<open>Note registry\<close>

text \<open>
  The registry is a plain object, so \<^verbatim>\<open>notesStore[key]\<close> finds the registry's own
  property of that name and, where there is none, what \<^verbatim>\<open>Object.prototype\<close> hands
  down: a data property that a handler has put there, or one of its native members.
  The native members are functions, and \<^verbatim>\<open>__proto__\<close> yields \<^verbatim>\<open>Object.prototype\<close>
  itself; all of them are objects, hence truthy.
\<close>

definition object_prototype_names :: "string list" where
  "object_prototype_names =
     [''constructor'', ''__proto__'', ''hasOwnProperty'', ''isPrototypeOf'',
      ''propertyIsEnumerable'', ''toLocaleString'', ''toString'', ''valueOf'',
      ''__defineGetter__'', ''__defineSetter__'', ''__lookupGetter__'', ''__lookupSetter__'']"

datatype slot = Own jsval | Handed jsval | Native string | Missing

definition inherited_slot :: "(string \<times> jsval) list \<Rightarrow> string \<Rightarrow> slot" where
  "inherited_slot proto key =
     (case map_of proto key of
        Some v \<Rightarrow> Handed v
      | None \<Rightarrow> if key \<in> set object_prototype_names then Native key else Missing)"

definition registry_slot ::
  "(string \<times> jsval) list \<Rightarrow> (string \<times> jsval) list \<Rightarrow> string \<Rightarrow> slot" where
  "registry_slot proto reg key =
     (case map_of reg key of Some v \<Rightarrow> Own v | None \<Rightarrow> inherited_slot proto key)"

fun slot_truthy :: "slot \<Rightarrow> bool" where
  "slot_truthy (Own v) = truthy v"
| "slot_truthy (Handed v) = truthy v"
| "slot_truthy (Native name) = True"
| "slot_truthy Missing = False"

text \<open>
  Reading \<^verbatim>\<open>v.name\<close> where the name may have been handed down: the own property of
  an object, else what \<open>objectPrototype\<close> holds under the name. Handlers put nothing but
  \<^verbatim>\<open>notes\<close> and \<^verbatim>\<open>ts\<close> there (\<open>touch_note_hands\<close> below), so the reads of every
  other name stay with \<open>get_field\<close>.
\<close>

definition get_prop :: "(string \<times> jsval) list \<Rightarrow> jsval \<Rightarrow> string \<Rightarrow> jsval" where
  "get_prop proto v name =
     (case (case v of JObj ps \<Rightarrow> map_of ps name | _ \<Rightarrow> None) of
        Some x \<Rightarrow> x
      | None \<Rightarrow> (case map_of proto name of None \<Rightarrow> JUndefined | Some x \<Rightarrow> x))"

text \<open>
  The steps shared by the note editor and the relay:
  \<^verbatim>\<open>if (!notesStore[key]) notesStore[key] = { title, notes: "", ts: Date.now() };
  notesStore[key].notes = text;
  notesStore[key].ts = Date.now();\<close>
  The two assignments go to whatever the lookup finds: to the own record; to a value
  handed down, which they change where it is; or to a native member, where they put
  \<^verbatim>\<open>notes\<close> and \<^verbatim>\<open>ts\<close> on a function of the host, which is not represented, or,
  for \<^verbatim>\<open>__proto__\<close>, on \<^verbatim>\<open>Object.prototype\<close> itself. In the last two cases the
  lookup was truthy and no record is created. The result is the registry and the
  properties handed down afterwards, or the exception of an assignment to something
  that is not an object; that can only be a value that was already there, so that
  nothing has been created.
\<close>

definition write_note :: "jsval \<Rightarrow> jsval \<Rightarrow> nat \<Rightarrow> js_error + jsval" where
  "write_note v text now =
     (case set_field v ''notes'' text of
        Inl e \<Rightarrow> Inl e
      | Inr v1 \<Rightarrow> set_field v1 ''ts'' (JNum (int now)))"

definition touch_note ::
  "(string \<times> jsval) list \<Rightarrow> string \<Rightarrow> jsval \<Rightarrow> jsval \<Rightarrow> nat \<Rightarrow> (string \<times> jsval) list
     \<Rightarrow> js_error + (string \<times> jsval) list \<times> (string \<times> jsval) list" where
  "touch_note proto key title text now reg =
     (let reg1 = (if slot_truthy (registry_slot proto reg key) then reg
                  else AList.update key
                         (JObj [(''title'', title), (''notes'', JStr []), (''ts'', JNum (int now))]) reg)
      in case registry_slot proto reg1 key of
           Own v \<Rightarrow>
             (case write_note v text now of
                Inl e \<Rightarrow> Inl e
              | Inr v' \<Rightarrow> Inr (AList.update key v' reg1, proto))
         | Handed v \<Rightarrow>
             (case write_note v text now of
                Inl e \<Rightarrow> Inl e
              | Inr v' \<Rightarrow> Inr (reg1, AList.update key v' proto))
         | Native name \<Rightarrow>
             Inr (reg1,
                  if name = ''__proto__''
                  then AList.update ''ts'' (JNum (int now)) (AList.update ''notes'' text proto)
                  else proto)
         | Missing \<Rightarrow> Inl TypeError)"

text \<open>
  The title of a new record: \<^verbatim>\<open>items.find(x => x.id === currentNoteKey)\<close> over the
  catalogue, inside a \<^verbatim>\<open>try\<close> whose \<^verbatim>\<open>catch\<close> keeps the key as the title.
\<close>

fun find_item :: "string \<Rightarrow> jsval list \<Rightarrow> js_error + jsval option" where
  "find_item key [] = Inr None"
| "find_item key (x # xs) =
     (if nullish x then Inl TypeError
      else if get_field x ''id'' = JStr key then Inr (Some x)
      else find_item key xs)"

definition resolve_title :: "string \<Rightarrow> jsval option \<Rightarrow> jsval" where
  "resolve_title key cat =
     (case cat of
        Some (JArr items) \<Rightarrow>
          (case find_item key items of
             Inr (Some found) \<Rightarrow>
               (if truthy (get_field found ''title'') then get_field found ''title'' else JStr key)
           | _ \<Rightarrow> JStr key)
      | _ \<Rightarrow> JStr key)"

text \<open>\<^verbatim>\<open>loadNoteForKey\<close>, called when the selection changes. The text area is not modelled.\<close>

definition loadNoteForKey :: "string \<Rightarrow> hub \<Rightarrow> hub" where
  "loadNoteForKey key s = s\<lparr>currentNoteKey := (if key = [] then None else Some key)\<rparr>"

text \<open>
  The \<^verbatim>\<open>input\<close> handler of the text area; \<open>text\<close> is the content of the area at the
  event. \<^verbatim>\<open>clearTimeout(noteSaveTimer); noteSaveTimer = setTimeout(..., 600)\<close> replaces
  whatever timeout was pending by one that is due 600 ms from now.
\<close>

definition notes_input :: "string \<Rightarrow> nat \<Rightarrow> hub \<Rightarrow> hub" where
  "notes_input text now s =
     (case currentNoteKey s of
        None \<Rightarrow> s
      | Some key \<Rightarrow>
          (case touch_note (objectPrototype s) key (resolve_title key (dbg_items s)) (JStr text)
                  now (notesStore s) of
             Inl e \<Rightarrow> s\<lparr>thrown := thrown s @ [e]\<rparr>
           | Inr (reg, proto) \<Rightarrow>
               s\<lparr>notesStore := reg, objectPrototype := proto, noteSaveTimer := Some (now + 600)\<rparr>))"

text \<open>The callback of the timeout: \<^verbatim>\<open>saveNotes()\<close>, then the cosmetic indicator.\<close>

definition note_timer_fire :: "hub \<Rightarrow> hub" where
  "note_timer_fire s = (saveNotes s)\<lparr>noteSaveTimer := None\<rparr>"

section \<open>Message relay\<close>

definition relay_log :: "jsval \<Rightarrow> nat \<Rightarrow> hub \<Rightarrow> hub" where
  "relay_log data now s =
     (let entry = log_entry now (get_field data ''lvl'')
                    (''['' @ to_string (get_field data ''gameTitle'') @ ''] ''
                       @ to_string (get_field data ''msg''));
          s1 = s\<lparr>consoleLogs := push_log entry (consoleLogs s)\<rparr>;
          s2 = saveJSON KEY_CONSOLE (JArr (consoleLogs s1)) s1
      in if activeTab s2 = ''console'' then refresh_console s2 else s2)"

definition relay_note :: "jsval \<Rightarrow> nat \<Rightarrow> hub \<Rightarrow> hub" where
  "relay_note data now s =
     (case touch_note (objectPrototype s) (to_string (get_field data ''key''))
             (get_field data ''gameTitle'') (get_field data ''txt'') now (notesStore s) of
        Inl e \<Rightarrow> s\<lparr>thrown := thrown s @ [e]\<rparr>
      | Inr (reg, proto) \<Rightarrow> saveNotes (s\<lparr>notesStore := reg, objectPrototype := proto\<rparr>))"

text \<open>
  The \<^verbatim>\<open>message\<close> listener. The two tests of \<^verbatim>\<open>e.data.type\<close> follow each other as in
  the source; at most one of them holds.
\<close>

definition message_listener :: "jsval \<Rightarrow> nat \<Rightarrow> hub \<Rightarrow> hub" where
  "message_listener data now s =
     (if \<not> truthy data then s
      else if \<not> typeof_object data then s
      else
        (let s1 = (if get_field data ''type'' = JStr ''sp_log'' then relay_log data now s else s)
         in if get_field data ''type'' = JStr ''sp_note'' then relay_note data now s1 else s1))"

section \<open>Export, import and clearing\<close>

text \<open>
  \<^verbatim>\<open>sp-dl-all\<close>: the name and the content of the downloaded file; \<open>stamp\<close> is the text
  that \<^verbatim>\<open>new Date().toISOString()\<close> returns.
\<close>

definition download_all :: "nat \<Rightarrow> string \<Rightarrow> hub \<Rightarrow> string \<times> jsval" where
  "download_all now stamp s =
     (''dbg-save-'' @ show_nat now @ ''.json'',
      JObj [(''exported'', JStr stamp),
            (''version'', JNum 1),
            (''notes'', JObj (notesStore s)),
            (''consoleLogs'', JArr (consoleLogs s))])"

text \<open>
  \<^verbatim>\<open>Object.assign(target, source)\<close> copies the own properties of the source in order:
  the properties of an object, the elements of an array and the characters of a string
  under their indices, nothing of a number or a boolean. Each becomes an own property
  of the target. (A source property named \<^verbatim>\<open>__proto__\<close> would instead replace the
  prototype of the target; such a source is outside the model.)
\<close>

fun own_props :: "jsval \<Rightarrow> (string \<times> jsval) list" where
  "own_props (JObj ps) = ps"
| "own_props (JArr xs) = zip (map show_nat [0..<length xs]) xs"
| "own_props (JStr cs) = zip (map show_nat [0..<length cs]) (map (\<lambda>c. JStr [c]) cs)"
| "own_props v = []"

definition object_assign :: "(string \<times> jsval) list \<Rightarrow> jsval \<Rightarrow> (string \<times> jsval) list" where
  "object_assign target source =
     fold (\<lambda>p acc. AList.update (fst p) (snd p) acc) (own_props source) target"

text \<open>
  The spread \<^verbatim>\<open>...v\<close> in an argument list: the elements of an array, the characters
  of a string; any other value is not iterable.
\<close>

fun spread_values :: "jsval \<Rightarrow> js_error + jsval list" where
  "spread_values (JArr xs) = Inr xs"
| "spread_values (JStr cs) = Inr (map (\<lambda>c. JStr [c]) cs)"
| "spread_values v = Inl TypeError"

text \<open>
  The \<^verbatim>\<open>onload\<close> handler of the import. \<open>parsed\<close> is the result of \<^verbatim>\<open>JSON.parse\<close> on
  the text of the file, \<open>None\<close> when it throws. Everything runs inside one \<^verbatim>\<open>try\<close>;
  the \<^verbatim>\<open>catch\<close> shows the failure dialog and undoes nothing. \<^verbatim>\<open>data.notes\<close> is
  read with what has been handed down.
\<close>

definition import_finish :: "hub \<Rightarrow> hub" where
  "import_finish s =
     (let s1 = saveJSON KEY_CONSOLE (JArr (consoleLogs s)) (saveNotes s)
      in case renderConsoleLogs s1 of
           Inl e \<Rightarrow> alert InvalidSaveFile s1
         | Inr shown \<Rightarrow> alert ImportSuccessful s1)"

definition import_file :: "jsval option \<Rightarrow> hub \<Rightarrow> hub" where
  "import_file parsed s =
     (case parsed of
        None \<Rightarrow> alert InvalidSaveFile s
      | Some data \<Rightarrow>
          if nullish data then alert InvalidSaveFile s
          else
            (let notes = get_prop (objectPrototype s) data ''notes'';
                 s1 = (if truthy notes
                       then s\<lparr>notesStore := object_assign (notesStore s) notes\<rparr>
                       else s)
             in if truthy (get_field data ''consoleLogs'') then
                  (case spread_values (get_field data ''consoleLogs'') of
                     Inl e \<Rightarrow> alert InvalidSaveFile (s1\<lparr>consoleLogs := []\<rparr>)
                   | Inr xs \<Rightarrow> import_finish (s1\<lparr>consoleLogs := xs\<rparr>))
                else import_finish s1))"

text \<open>\<^verbatim>\<open>sp-clear-all\<close>; \<open>confirmed\<close> is the answer to the confirmation dialog.\<close>

definition clear_all :: "bool \<Rightarrow> hub \<Rightarrow> hub" where
  "clear_all confirmed s =
     (if \<not> confirmed then s
      else
        (let s1 = s\<lparr>consoleLogs := [], notesStore := []\<rparr>;
             s2 = saveNotes (saveJSON KEY_CONSOLE (JArr []) s1)
         in alert Cleared (refresh_console s2)))"

section \<open>Injection patcher\<close>

text \<open>
  \<^verbatim>\<open>base.replace("</body>", inject + "</body>")\<close> with a text as the pattern replaces
  the first occurrence only, and reads the replacement as a template: \<^verbatim>\<open>$$\<close> stands
  for a dollar sign, \<^verbatim>\<open>$&\<close> for the matched text, \<^verbatim>\<open>$`\<close> for the text before the
  match and \<^verbatim>\<open>$'\<close> for the text after it. A text pattern has no groups, so a dollar
  sign before anything else stands for itself.
\<close>

fun find_first :: "string \<Rightarrow> string \<Rightarrow> (string \<times> string) option" where
  "find_first pat [] = (if pat = [] then Some ([], []) else None)"
| "find_first pat (c # cs) =
     (if prefix pat (c # cs) then Some ([], drop (length pat) (c # cs))
      else (case find_first pat cs of None \<Rightarrow> None | Some (b, a) \<Rightarrow> Some (c # b, a)))"

fun get_substitution :: "string \<Rightarrow> string \<Rightarrow> string \<Rightarrow> string \<Rightarrow> string" where
  "get_substitution m pre post (c # d # r) =
     (if c = CHR ''$'' then
        (if d = CHR ''$'' then CHR ''$'' # get_substitution m pre post r
         else if d = CHR ''&'' then m @ get_substitution m pre post r
         else if d = CHR 0x60 then pre @ get_substitution m pre post r
         else if d = CHR 0x27 then post @ get_substitution m pre post r
         else c # get_substitution m pre post (d # r))
      else c # get_substitution m pre post (d # r))"
| "get_substitution m pre post [c] = [c]"
| "get_substitution m pre post [] = []"

definition js_replace :: "string \<Rightarrow> string \<Rightarrow> string \<Rightarrow> string" where
  "js_replace pat rep s =
     (case find_first pat s of
        None \<Rightarrow> s
      | Some (b, a) \<Rightarrow> b @ get_substitution pat b a rep @ a)"

definition body_end :: string where
  "body_end = ''</body>''"

text \<open>
  The payload is one fixed template with \<^verbatim>\<open>JSON.stringify(title)\<close> spliced in at one
  place. \<open>head\<close> and \<open>tail\<close> are the fixed text before and after that place (style
  sheet, panel markup and the agent script); in the source neither contains a dollar
  sign.
\<close>

definition agent_payload :: "string \<Rightarrow> string \<Rightarrow> string \<Rightarrow> string" where
  "agent_payload head tail title = head @ json_quote title @ tail"

text \<open>
  A call of a factory. \<open>External f\<close> is a function of the launcher. \<open>Wrapper\<close> is the
  function that \<^verbatim>\<open>patchMakeBlankerHTML\<close> installs; it reads
  \<^verbatim>\<open>window.__origMakeBlankerHTML\<close> when it is called. A wrapper that found itself
  there would call itself without end, which the host stops with a RangeError.
\<close>

definition call_factory ::
  "string \<Rightarrow> string \<Rightarrow> hub \<Rightarrow> factory \<Rightarrow> string \<Rightarrow> string \<Rightarrow> bool \<Rightarrow> js_error + string" where
  "call_factory head tail s fac title src autoFS =
     (case fac of
        External f \<Rightarrow> Inr (f title src autoFS)
      | Wrapper \<Rightarrow>
          (case origMakeBlankerHTML s of
             None \<Rightarrow> Inl TypeError
           | Some Wrapper \<Rightarrow> Inl RangeError
           | Some (External f) \<Rightarrow>
               Inr (js_replace body_end (agent_payload head tail title @ body_end)
                      (f title src autoFS))))"

text \<open>\<^verbatim>\<open>window.makeBlankerHTML(title, src, autoFS)\<close> as the launcher calls it.\<close>

definition call_makeBlankerHTML ::
  "string \<Rightarrow> string \<Rightarrow> hub \<Rightarrow> string \<Rightarrow> string \<Rightarrow> bool \<Rightarrow> js_error + string" where
  "call_makeBlankerHTML head tail s title src autoFS =
     (case makeBlankerHTML s of
        None \<Rightarrow> Inl TypeError
      | Some fac \<Rightarrow> call_factory head tail s fac title src autoFS)"

definition patchMakeBlankerHTML :: "hub \<Rightarrow> hub" where
  "patchMakeBlankerHTML s =
     (if \<not> injectEnabled s then
        (case origMakeBlankerHTML s of
           Some orig \<Rightarrow> s\<lparr>makeBlankerHTML := Some orig\<rparr>
         | None \<Rightarrow> s)
      else
        (let s1 = (if origMakeBlankerHTML s = None \<and> makeBlankerHTML s \<noteq> None
                   then s\<lparr>origMakeBlankerHTML := makeBlankerHTML s\<rparr> else s)
         in case origMakeBlankerHTML s1 of
              None \<Rightarrow> s1
            | Some orig \<Rightarrow> s1\<lparr>makeBlankerHTML := Some Wrapper\<rparr>))"

definition syncInjectUI :: "hub \<Rightarrow> hub" where
  "syncInjectUI s = saveJSON ''dbg_inject_enabled'' (JBool (injectEnabled s)) s"

text \<open>The click handler of the toggle.\<close>

definition inject_toggle_click :: "hub \<Rightarrow> hub" where
  "inject_toggle_click s =
     patchMakeBlankerHTML (syncInjectUI (s\<lparr>injectEnabled := \<not> injectEnabled s\<rparr>))"

section \<open>Sequences of note events in time\<close>

text \<open>
  The user selects a key or types in the text area; each event carries the time of the
  host clock in milliseconds. A timeout that is due runs before the handler of an event
  that is not earlier. \<open>settle\<close> lets the clock run on until nothing is pending.
\<close>

datatype note_event = Select string | Input string

definition flush_due :: "nat \<Rightarrow> hub \<Rightarrow> hub" where
  "flush_due now s =
     (case noteSaveTimer s of
        None \<Rightarrow> s
      | Some due \<Rightarrow> if due \<le> now then note_timer_fire s else s)"

fun note_step :: "note_event \<Rightarrow> nat \<Rightarrow> hub \<Rightarrow> hub" where
  "note_step (Select key) now s = loadNoteForKey key s"
| "note_step (Input text) now s = notes_input text now s"

fun run_notes :: "(nat \<times> note_event) list \<Rightarrow> hub \<Rightarrow> hub" where
  "run_notes [] s = s"
| "run_notes ((t, e) # es) s = run_notes es (note_step e t (flush_due t s))"

definition settle :: "hub \<Rightarrow> hub" where
  "settle s = (case noteSaveTimer s of None \<Rightarrow> s | Some due \<Rightarrow> note_timer_fire s)"

text \<open>
  The variables as they are first initialised on empty storage, with no factory of the
  launcher defined yet.
\<close>

definition hub0 :: hub where
  "hub0 = \<lparr>consoleLogs = [], notesStore = [], localStorage = Map.empty, storage_log = [],
           dbg_items = Some (JArr []), activeTab = ''console'', consoleFilter = [],
           noteSaveTimer = None, currentNoteKey = None, injectEnabled = False,
           makeBlankerHTML = None, origMakeBlankerHTML = None, alerts = [], thrown = [],
           objectPrototype = []\<rparr>"

section \<open>Observations and conditions used in the statements\<close>

text \<open>The text of the note of a key, in a registry, in memory and in storage.\<close>

definition note_text :: "(string \<times> jsval) list \<Rightarrow> string \<Rightarrow> jsval" where
  "note_text reg key = get_field (get_field (JObj reg) key) ''notes''"




text \<open>A registry all of whose values are records, as every path but the import leaves it.\<close>

fun is_record :: "jsval \<Rightarrow> bool" where
  "is_record (JObj ps) = True"
| "is_record v = False"

definition wf_registry :: "(string \<times> jsval) list \<Rightarrow> bool" where
  "wf_registry reg = list_all (\<lambda>p. is_record (snd p)) reg"

text \<open>
  The relay messages of the specification: a log relay with a level, a message and a
  source title, or a note relay with a key, a title and a text, under the field names
  of the wire format.
\<close>

fun is_text :: "jsval \<Rightarrow> bool" where
  "is_text (JStr t) = True"
| "is_text v = False"

definition levels :: "string list" where
  "levels = [''log'', ''info'', ''warn'', ''error'', ''debug'']"

definition well_formed_relay :: "jsval \<Rightarrow> bool" where
  "well_formed_relay d =
     (is_record d \<and>
      ((get_field d ''type'' = JStr ''sp_log'' \<and> get_field d ''lvl'' \<in> JStr ` set levels \<and>
        is_text (get_field d ''msg'') \<and> is_text (get_field d ''gameTitle''))
       \<or> (get_field d ''type'' = JStr ''sp_note'' \<and> is_text (get_field d ''key'') \<and>
           is_text (get_field d ''gameTitle'') \<and> is_text (get_field d ''txt''))))"

text \<open>What the listener looks at: an object whose \<^verbatim>\<open>type\<close> is one of the two tags.\<close>

definition recognized :: "jsval \<Rightarrow> bool" where
  "recognized d =
     (truthy d \<and> typeof_object d \<and>
      (get_field d ''type'' = JStr ''sp_log'' \<or> get_field d ''type'' = JStr ''sp_note''))"


fun collapse :: "(nat \<times> string) list \<Rightarrow> (nat \<times> string) list" where
  "collapse [] = []"
| "collapse [(t, x)] = [(t + 600, x)]"
| "collapse ((t, x) # (t', x') # es) =
     (if t' < t + 600 then collapse ((t', x') # es) else (t + 600, x) # collapse ((t', x') # es))"







text \<open>
  The keys that the selection list offers (\<^verbatim>\<open>populateGameSelect\<close>): the own keys of the
  registry, and of the identifiers of the catalogue those for which
  \<^verbatim>\<open>!notesStore[item.id]\<close> holds, which leaves out every name whose lookup finds
  something truthy handed down. \<open>keys_offered s es\<close> holds when every selection along
  \<open>es\<close> picks the empty entry or a key offered in \<open>s\<close>, and \<open>current_offered s\<close>
  when the key selected in \<open>s\<close>, if any, is offered.
\<close>

definition offered :: "hub \<Rightarrow> string \<Rightarrow> bool" where
  "offered s key =
     (case map_of (notesStore s) key of
        Some v \<Rightarrow> True
      | None \<Rightarrow> \<not> slot_truthy (inherited_slot (objectPrototype s) key))"



section \<open>Sample inputs\<close>

text \<open>
  Two factories such as the launcher's, one whose document ends its body and one whose
  document has no body, and a hub with each in place before any patching.
\<close>

definition sample_factory :: "string \<Rightarrow> string \<Rightarrow> bool \<Rightarrow> string" where
  "sample_factory title src autoFS = ''<body>'' @ title @ ''</body>''"

definition bare_factory :: "string \<Rightarrow> string \<Rightarrow> bool \<Rightarrow> string" where
  "bare_factory title src autoFS = ''<p>'' @ title @ ''</p>''"

definition sample_hub :: hub where
  "sample_hub = hub0\<lparr>makeBlankerHTML := Some (External sample_factory)\<rparr>"

definition bare_hub :: hub where
  "bare_hub = hub0\<lparr>makeBlankerHTML := Some (External bare_factory)\<rparr>"

text \<open>A hub that has logged one line, and a save file whose log part is a number.\<close>

definition logged_hub :: hub where
  "logged_hub = console_method ''log'' [JStr ''a''] 1 hub0"

definition sample_note :: jsval where
  "sample_note = JObj [(''title'', JStr ''G''), (''notes'', JStr ''x''), (''ts'', JNum 1)]"

definition broken_save :: jsval where
  "broken_save = JObj [(''notes'', JObj [(''g'', sample_note)]), (''consoleLogs'', JNum 5)]"

text \<open>A hub with one note, and a note relay for its key.\<close>

definition noted_hub :: hub where
  "noted_hub = hub0\<lparr>notesStore := [(''g'', sample_note)]\<rparr>"

definition sample_note_relay :: jsval where
  "sample_note_relay =
     JObj [(''type'', JStr ''sp_note''), (''key'', JStr ''g''), (''txt'', JStr ''new''),
           (''gameTitle'', JStr ''Game'')]"

text \<open>Messages that are not relay messages: one with a tag only, one with a foreign tag.\<close>

definition tag_only_message :: jsval where
  "tag_only_message = JObj [(''type'', JStr ''sp_log'')]"

definition foreign_message :: jsval where
  "foreign_message = JObj [(''type'', JStr ''resize''), (''msg'', JStr ''hi'')]"

text \<open>A note relay whose key is the name of a native member of \<^verbatim>\<open>Object.prototype\<close>.\<close>

definition inherited_key_relay :: jsval where
  "inherited_key_relay =
     JObj [(''type'', JStr ''sp_note''), (''key'', JStr ''constructor''), (''txt'', JStr ''new''),
           (''gameTitle'', JStr ''Game'')]"





section \<open>The bound of the log buffer\<close>

lemma push_log_length: "length (push_log entry logs) \<le> MAX_LOGS"
  by (simp add: push_log_def Let_def MAX_LOGS_def)

lemma push_log_last_n: "push_log entry logs = last_n MAX_LOGS (logs @ [entry])"
  by (simp add: push_log_def last_n_def Let_def)

lemma last_n_last_n: "last_n n (last_n n xs @ ys) = last_n n (xs @ ys)"
  by (cases "length xs \<le> n") (simp_all add: last_n_def add.commute)

text \<open>
  Any number of appends, whatever the buffer held before, leaves the last \<open>MAX_LOGS\<close>
  entries in the order of the appends.
\<close>

lemma fold_push_log:
  "es \<noteq> [] \<Longrightarrow> fold push_log es logs = last_n MAX_LOGS (logs @ es)"
proof (induction es arbitrary: logs)
  case Nil
  then show ?case by simp
next
  case (Cons e es)
  show ?case
  proof (cases "es = []")
    case True
    then show ?thesis by (simp add: push_log_last_n)
  next
    case False
    then have "fold push_log es (push_log e logs) = last_n MAX_LOGS (push_log e logs @ es)"
      by (rule Cons.IH)
    then have "fold push_log es (push_log e logs) = last_n MAX_LOGS ((logs @ [e]) @ es)"
      by (simp only: push_log_last_n last_n_last_n)
    then show ?thesis by simp
  qed
qed

lemma console_method_logs:
  "consoleLogs (console_method method args now s) =
     push_log (log_entry now (JStr method) (join '' '' (map arg_text args))) (consoleLogs s)"
  by (simp add: console_method_def Let_def refresh_console_def saveJSON_def split: sum.splits)

lemma relay_log_logs:
  "consoleLogs (relay_log data now s) =
     push_log (log_entry now (get_field data ''lvl'')
                 (''['' @ to_string (get_field data ''gameTitle'') @ ''] ''
                    @ to_string (get_field data ''msg''))) (consoleLogs s)"
  by (simp add: relay_log_def Let_def refresh_console_def saveJSON_def split: sum.splits)

lemma console_clear_logs: "consoleLogs (console_clear s) = []"
  by (simp add: console_clear_def refresh_console_def saveJSON_def split: sum.splits)

lemma append_within_bound:
  "length (consoleLogs (console_method method args now s)) \<le> MAX_LOGS"
  "length (consoleLogs (relay_log data now s)) \<le> MAX_LOGS"
  "length (consoleLogs (console_clear s)) \<le> MAX_LOGS"
  by (simp_all add: console_method_logs relay_log_logs console_clear_logs push_log_length)

text \<open>
  Claim C1: the log buffer never holds more than 400 entries, after an append by the
  interceptor, an append by the relay, a clear or an import, and an append over the
  bound keeps exactly the last 400 entries. The two appends and the clear do so
  (\<open>append_within_bound\<close>, \<open>fold_push_log\<close>). The import does not: it replaces the
  buffer by the array of the file, however long. On a file with 401 entries the buffer
  afterwards has 401 entries.
\<close>

theorem import_exceeds_capacity:
  "length (consoleLogs (import_file
      (Some (JObj [(''consoleLogs'', JArr (replicate 401 (log_entry 0 (JStr ''log'') ''x'')))])) s))
     = 401 \<and> \<not> 401 \<le> MAX_LOGS"
  by (simp add: import_file_def import_finish_def Let_def alert_def saveJSON_def saveNotes_def
      MAX_LOGS_def split: sum.splits)

section \<open>Import\<close>

lemma import_invalid_json: "import_file None s = s\<lparr>alerts := alerts s @ [InvalidSaveFile]\<rparr>"
  by (simp add: import_file_def alert_def)

lemma import_missing_consoleLogs:
  "\<not> nullish data \<Longrightarrow> get_field data ''consoleLogs'' = JUndefined \<Longrightarrow>
     consoleLogs (import_file (Some data) s) = consoleLogs s"
  by (simp add: import_file_def import_finish_def Let_def alert_def saveJSON_def saveNotes_def
      split: sum.splits)

text \<open>Where nothing has been handed down, \<open>get_prop\<close> reads own properties only.\<close>

lemma get_prop_plain: "get_prop [] v name = get_field v name"
  by (cases v) (simp_all add: get_prop_def split: option.splits)

lemma import_missing_notes:
  "\<not> nullish data \<Longrightarrow> get_prop (objectPrototype s) data ''notes'' = JUndefined \<Longrightarrow>
     notesStore (import_file (Some data) s) = notesStore s"
  by (simp add: import_file_def import_finish_def Let_def alert_def saveJSON_def saveNotes_def
      split: sum.splits)

text \<open>
  A file whose log part holds a null entry is imported and persisted in full, and then
  reported as invalid, because drawing the list throws inside the same \<^verbatim>\<open>try\<close>.
\<close>

lemma import_null_entry:
  "alerts (import_file (Some (JObj [(''consoleLogs'', JArr [JNull])])) logged_hub) = [InvalidSaveFile] \<and>
   consoleLogs (import_file (Some (JObj [(''consoleLogs'', JArr [JNull])])) logged_hub) = [JNull] \<and>
   localStorage (import_file (Some (JObj [(''consoleLogs'', JArr [JNull])])) logged_hub) KEY_CONSOLE
     = Some (JArr [JNull])"
  by (simp add: import_file_def import_finish_def Let_def alert_def hub0_def console_method_def
      refresh_console_def saveJSON_def saveNotes_def push_log_def renderConsoleLogs_def last_n_def
      log_entry_def MAX_LOGS_def logged_hub_def KEY_CONSOLE_def KEY_NOTES_def)

text \<open>Clearing everything empties buffer and registry and persists both as empty.\<close>

lemma clear_all_empties:
  "consoleLogs (clear_all True s) = [] \<and> notesStore (clear_all True s) = [] \<and>
   localStorage (clear_all True s) KEY_CONSOLE = Some (JArr []) \<and>
   localStorage (clear_all True s) KEY_NOTES = Some (JObj [])"
  by (simp add: clear_all_def Let_def refresh_console_def saveJSON_def saveNotes_def alert_def
      renderConsoleLogs_def last_n_def KEY_CONSOLE_def KEY_NOTES_def)

text \<open>
  Claim C2: an import is all or nothing; a file without \<^verbatim>\<open>consoleLogs\<close> leaves the
  buffer alone, a file without \<^verbatim>\<open>notes\<close> leaves the registry alone, and any malformed
  file leaves both as they were and shows one failure. The first two hold
  (\<open>import_missing_consoleLogs\<close>, and \<open>import_missing_notes\<close> where no \<^verbatim>\<open>notes\<close> has been
  handed down), and so does the last for a text that does not parse
  (\<open>import_invalid_json\<close>). A file that parses but whose
  \<^verbatim>\<open>consoleLogs\<close> is the number 5 fails after the notes have been merged and the buffer
  emptied: the one failure dialog is shown, the registry has gained the note of the file
  and the entry that was in the buffer is gone. Nothing was written to storage.
\<close>

theorem import_failure_is_partial:
  "alerts (import_file (Some broken_save) logged_hub) = [InvalidSaveFile] \<and>
   consoleLogs logged_hub \<noteq> [] \<and>
   consoleLogs (import_file (Some broken_save) logged_hub) = [] \<and>
   notesStore logged_hub = [] \<and>
   notesStore (import_file (Some broken_save) logged_hub) = [(''g'', sample_note)] \<and>
   storage_log (import_file (Some broken_save) logged_hub) = storage_log logged_hub"
  by (simp add: import_file_def Let_def alert_def hub0_def console_method_def refresh_console_def
      saveJSON_def push_log_def object_assign_def renderConsoleLogs_def last_n_def log_entry_def
      MAX_LOGS_def logged_hub_def broken_save_def sample_note_def get_prop_def)

section \<open>Properties of the injection patcher\<close>

subsection \<open>Replacing the first occurrence\<close>

lemma find_first_Some: "find_first pat s = Some (b, a) \<Longrightarrow> s = b @ pat @ a"
proof (induction s arbitrary: b)
  case Nil
  then show ?case by (simp split: if_splits)
next
  case (Cons c cs)
  show ?case
  proof (cases "prefix pat (c # cs)")
    case True
    then have "take (length pat) (c # cs) = pat"
      by (metis append_eq_conv_conj prefix_def)
    then have "pat @ drop (length pat) (c # cs) = c # cs"
      by (metis append_take_drop_id)
    moreover from True Cons.prems have "b = []" and "a = drop (length pat) (c # cs)"
      by simp_all
    ultimately show ?thesis by simp
  next
    case False
    with Cons.prems obtain b' where "find_first pat cs = Some (b', a)" and "b = c # b'"
      by (auto split: option.splits)
    with Cons.IH show ?thesis by simp
  qed
qed

lemma find_first_earliest:
  "find_first pat s = Some (b, a) \<Longrightarrow> s = b' @ pat @ a' \<Longrightarrow> length b \<le> length b'"
proof (induction s arbitrary: b b')
  case Nil
  then show ?case by (simp split: if_splits)
next
  case (Cons c cs)
  show ?case
  proof (cases "prefix pat (c # cs)")
    case True
    with Cons.prems(1) have "b = []" by simp
    then show ?thesis by simp
  next
    case False
    with Cons.prems(1) obtain b0 where b0: "find_first pat cs = Some (b0, a)" "b = c # b0"
      by (auto split: option.splits)
    from False Cons.prems(2) have "b' \<noteq> []" by (auto simp add: prefix_def)
    then obtain b1 where b1: "b' = c # b1" "cs = b1 @ pat @ a'"
      using Cons.prems(2) by (cases b') auto
    from Cons.IH [OF b0(1) b1(2)] b0(2) b1(1) show ?thesis by simp
  qed
qed

lemma find_first_None: "find_first pat s = None \<Longrightarrow> s \<noteq> b @ pat @ a"
proof (induction s arbitrary: b)
  case Nil
  then show ?case by (simp split: if_splits)
next
  case (Cons c cs)
  from Cons.prems have np: "\<not> prefix pat (c # cs)" and rest: "find_first pat cs = None"
    by (auto split: if_splits option.splits)
  show ?case
  proof (cases b)
    case Nil
    with np show ?thesis by (auto simp add: prefix_def)
  next
    case (Cons c' b1)
    with Cons.IH [OF rest, of b1] show ?thesis by auto
  qed
qed

lemma get_substitution_plain:
  "CHR ''$'' \<notin> set rep \<Longrightarrow> get_substitution m pre post rep = rep"
  by (induction m pre post rep rule: get_substitution.induct) auto

lemma js_replace_plain:
  "CHR ''$'' \<notin> set rep \<Longrightarrow>
   js_replace pat rep s = (case find_first pat s of None \<Rightarrow> s | Some (b, a) \<Rightarrow> b @ rep @ a)"
  by (simp add: js_replace_def get_substitution_plain split: option.splits)

text \<open>The payload has a dollar sign exactly when the title has one.\<close>

lemma hex_digit_not_dollar: "k < 16 \<Longrightarrow> hex_digits ! k \<noteq> CHR ''$''"
proof -
  assume "k < 16"
  then have "hex_digits ! k \<in> set hex_digits"
    by (intro nth_mem) (simp add: hex_digits_def)
  moreover have "CHR ''$'' \<notin> set hex_digits"
    by (simp add: hex_digits_def)
  ultimately show ?thesis by auto
qed

lemma json_escape_dollar: "CHR ''$'' \<in> set (json_escape c) \<longleftrightarrow> c = CHR ''$''"
proof (cases "c = CHR ''$''")
  case True
  then show ?thesis by (simp add: json_escape_def)
next
  case False
  have "hex_digits ! ((of_char c :: nat) div 16) \<noteq> CHR ''$''"
    if "(of_char c :: nat) < 32"
    using that by (intro hex_digit_not_dollar) simp
  moreover have "hex_digits ! ((of_char c :: nat) mod 16) \<noteq> CHR ''$''"
    by (intro hex_digit_not_dollar) simp
  ultimately show ?thesis
    using False by (simp add: json_escape_def) metis
qed

lemma json_quote_dollar: "CHR ''$'' \<in> set (json_quote t) \<longleftrightarrow> CHR ''$'' \<in> set t"
  by (auto simp add: json_quote_def json_escape_dollar)

lemma agent_payload_dollar:
  "CHR ''$'' \<notin> set head \<Longrightarrow> CHR ''$'' \<notin> set tail \<Longrightarrow>
   CHR ''$'' \<in> set (agent_payload head tail title) \<longleftrightarrow> CHR ''$'' \<in> set title"
  by (simp add: agent_payload_def json_quote_dollar)

subsection \<open>The toggle\<close>

lemma toggle_unfold:
  "inject_toggle_click s =
     patchMakeBlankerHTML
       (saveJSON ''dbg_inject_enabled'' (JBool (\<not> injectEnabled s))
          (s\<lparr>injectEnabled := \<not> injectEnabled s\<rparr>))"
  by (simp add: inject_toggle_click_def syncInjectUI_def)

lemma enable_first:
  assumes "origMakeBlankerHTML s = None" and "makeBlankerHTML s = Some (External f)"
    and "\<not> injectEnabled s"
  shows "origMakeBlankerHTML (inject_toggle_click s) = Some (External f)"
    and "makeBlankerHTML (inject_toggle_click s) = Some Wrapper"
    and "injectEnabled (inject_toggle_click s)"
  using assms by (simp_all add: toggle_unfold patchMakeBlankerHTML_def saveJSON_def Let_def)

lemma disable_restores:
  assumes "origMakeBlankerHTML s = Some g" and "injectEnabled s"
  shows "origMakeBlankerHTML (inject_toggle_click s) = Some g"
    and "makeBlankerHTML (inject_toggle_click s) = Some g"
    and "\<not> injectEnabled (inject_toggle_click s)"
  using assms by (simp_all add: toggle_unfold patchMakeBlankerHTML_def saveJSON_def Let_def)

lemma enable_again:
  assumes "origMakeBlankerHTML s = Some g" and "\<not> injectEnabled s"
  shows "origMakeBlankerHTML (inject_toggle_click s) = Some g"
    and "makeBlankerHTML (inject_toggle_click s) = Some Wrapper"
    and "injectEnabled (inject_toggle_click s)"
  using assms by (simp_all add: toggle_unfold patchMakeBlankerHTML_def saveJSON_def Let_def)

text \<open>
  Once captured, the original stays what it is under any number of clicks, and the
  installed factory is the wrapper or the original according to the flag.
\<close>

lemma toggle_invariant:
  assumes "origMakeBlankerHTML s = Some g"
    and "makeBlankerHTML s = Some (if injectEnabled s then Wrapper else g)"
  shows "origMakeBlankerHTML ((inject_toggle_click ^^ n) s) = Some g \<and>
         makeBlankerHTML ((inject_toggle_click ^^ n) s) =
           Some (if injectEnabled ((inject_toggle_click ^^ n) s) then Wrapper else g)"
proof (induction n)
  case 0
  show ?case using assms by simp
next
  case (Suc n)
  let ?s = "(inject_toggle_click ^^ n) s"
  from Suc have o: "origMakeBlankerHTML ?s = Some g" by simp
  show ?case
  proof (cases "injectEnabled ?s")
    case True
    from disable_restores [OF o True] show ?thesis by simp
  next
    case False
    from enable_again [OF o False] show ?thesis by simp
  qed
qed

text \<open>
  Claim C3, as amended: the original is captured once, at the first enable; disabling
  installs exactly that original again, so that the factory then returns what it
  returned before any patching; enabling again wraps the same original, not a wrapper,
  so that the factory returns what it returned after the first enable. The start is a
  hub with the patch off, nothing captured and the launcher's factory \<open>f\<close> in place.
\<close>

theorem toggle_cycle:
  assumes "origMakeBlankerHTML s = None" and "makeBlankerHTML s = Some (External f)"
    and "\<not> injectEnabled s"
  shows "let s1 = inject_toggle_click s; s2 = inject_toggle_click s1; s3 = inject_toggle_click s2
         in origMakeBlankerHTML s1 = Some (External f) \<and>
            makeBlankerHTML s2 = Some (External f) \<and> origMakeBlankerHTML s2 = Some (External f) \<and>
            call_makeBlankerHTML head tail s2 title src autoFS = Inr (f title src autoFS) \<and>
            makeBlankerHTML s3 = Some Wrapper \<and> origMakeBlankerHTML s3 = Some (External f) \<and>
            call_makeBlankerHTML head tail s1 title src autoFS =
              Inr (js_replace body_end (agent_payload head tail title @ body_end)
                     (f title src autoFS)) \<and>
            call_makeBlankerHTML head tail s3 title src autoFS =
              Inr (js_replace body_end (agent_payload head tail title @ body_end)
                     (f title src autoFS))"
proof -
  define s1 where "s1 = inject_toggle_click s"
  define s2 where "s2 = inject_toggle_click s1"
  define s3 where "s3 = inject_toggle_click s2"
  note a = enable_first [OF assms, folded s1_def]
  note b = disable_restores [OF a(1) a(3), folded s2_def]
  note c = enable_again [OF b(1) b(3), folded s3_def]
  have "call_makeBlankerHTML head tail s2 title src autoFS = Inr (f title src autoFS)"
    using b by (simp add: call_makeBlankerHTML_def call_factory_def)
  moreover have "call_makeBlankerHTML head tail s1 title src autoFS =
      Inr (js_replace body_end (agent_payload head tail title @ body_end) (f title src autoFS))"
    using a by (simp add: call_makeBlankerHTML_def call_factory_def)
  moreover have "call_makeBlankerHTML head tail s3 title src autoFS =
      Inr (js_replace body_end (agent_payload head tail title @ body_end) (f title src autoFS))"
    using c by (simp add: call_makeBlankerHTML_def call_factory_def)
  ultimately show ?thesis
    using a b c by (simp add: s1_def s2_def s3_def Let_def)
qed

text \<open>The cycle on the sample factory, with a short payload around the title.\<close>

theorem toggle_cycle_witness:
  "origMakeBlankerHTML sample_hub = None \<and>
   makeBlankerHTML sample_hub = Some (External sample_factory) \<and>
   \<not> injectEnabled sample_hub \<and>
   call_makeBlankerHTML ''<i>'' ''</i>'' (inject_toggle_click (inject_toggle_click sample_hub))
       ''T'' ''u'' False = Inr ''<body>T</body>'' \<and>
   call_makeBlankerHTML ''<i>'' ''</i>''
       (inject_toggle_click (inject_toggle_click (inject_toggle_click sample_hub)))
       ''T'' ''u'' False
     = Inr (''<body>T<i>'' @ [CHR 0x22, CHR ''T'', CHR 0x22] @ ''</i></body>'')"
  using toggle_cycle [of sample_hub sample_factory "''<i>''" "''</i>''" "''T''" "''u''" False]
  by (simp add: sample_hub_def hub0_def Let_def sample_factory_def js_replace_def body_end_def
      agent_payload_def json_quote_def json_escape_def)

text \<open>
  Claim C3 as stated compares the factory after enable, disable, enable with the
  factory that was never patched. After the second enable the wrapper is installed, and
  on the sample factory its output differs from the unpatched output.
\<close>

theorem toggle_cycle_counterexample:
  "call_makeBlankerHTML ''<i>'' ''</i>''
     (inject_toggle_click (inject_toggle_click (inject_toggle_click sample_hub))) ''T'' ''u'' False
   \<noteq> call_makeBlankerHTML ''<i>'' ''</i>'' sample_hub ''T'' ''u'' False"
  by (simp add: sample_hub_def hub0_def Let_def sample_factory_def js_replace_def body_end_def
      agent_payload_def json_quote_def json_escape_def call_makeBlankerHTML_def call_factory_def
      inject_toggle_click_def syncInjectUI_def patchMakeBlankerHTML_def saveJSON_def)

text \<open>
  Claim C6, as amended: the wrapper hands title, source and flag unchanged to the
  captured original. Where the payload for the title has no dollar sign, the result is
  the original's output with the payload put in immediately before the first
  end-of-body marker and nothing else changed, and it is the original's output as it is
  when that output has no marker. (\<open>find_first_Some\<close>, \<open>find_first_earliest\<close> and
  \<open>find_first_None\<close> say that \<open>find_first\<close> splits at the first occurrence.)
\<close>

theorem wrapper_output:
  assumes "origMakeBlankerHTML s = Some (External f)"
    and "CHR ''$'' \<notin> set (agent_payload head tail title)"
  shows "call_factory head tail s Wrapper title src autoFS =
           Inr (case find_first body_end (f title src autoFS) of
                  None \<Rightarrow> f title src autoFS
                | Some (b, a) \<Rightarrow> b @ agent_payload head tail title @ body_end @ a)"
proof -
  have "CHR ''$'' \<notin> set (agent_payload head tail title @ body_end)"
    using assms(2) by (simp add: body_end_def)
  then show ?thesis
    using assms(1) by (simp add: call_factory_def js_replace_plain split: option.splits)
qed

theorem wrapper_output_witness:
  "origMakeBlankerHTML (inject_toggle_click sample_hub) = Some (External sample_factory) \<and>
   CHR ''$'' \<notin> set (agent_payload ''<i>'' ''</i>'' ''T'') \<and>
   find_first body_end (sample_factory ''T'' ''u'' False) = Some (''<body>T'', []) \<and>
   call_factory ''<i>'' ''</i>'' (inject_toggle_click sample_hub) Wrapper ''T'' ''u'' False =
     Inr (''<body>T'' @ agent_payload ''<i>'' ''</i>'' ''T'' @ body_end)"
  using wrapper_output [of "inject_toggle_click sample_hub" sample_factory
      "''<i>''" "''</i>''" "''T''" "''u''" False]
  by (simp add: sample_hub_def hub0_def Let_def sample_factory_def body_end_def agent_payload_def
      json_quote_def json_escape_def
      inject_toggle_click_def syncInjectUI_def patchMakeBlankerHTML_def saveJSON_def)

text \<open>
  Claim C6 as stated fails in two ways. A document without the marker comes back
  without the agent. And with the title \<^verbatim>\<open>$&\<close> the text put into the sample
  document is not the payload: the replacement pattern in the quoted title is expanded
  to the marker.
\<close>

theorem wrapper_output_counterexample:
  "call_makeBlankerHTML ''<i>'' ''</i>'' (inject_toggle_click bare_hub) ''T'' ''u'' False
     = Inr ''<p>T</p>'' \<and>
   call_makeBlankerHTML ''<i>'' ''</i>'' (inject_toggle_click sample_hub) ''$&'' ''u'' False
     = Inr (''<body>$&<i>'' @ [CHR 0x22] @ ''</body>'' @ [CHR 0x22] @ ''</i></body>'') \<and>
   agent_payload ''<i>'' ''</i>'' ''$&'' = ''<i>'' @ [CHR 0x22] @ ''$&'' @ [CHR 0x22] @ ''</i>''"
  by (simp add: sample_hub_def bare_hub_def hub0_def Let_def sample_factory_def bare_factory_def
      js_replace_def body_end_def agent_payload_def
      json_quote_def json_escape_def call_makeBlankerHTML_def call_factory_def
      inject_toggle_click_def syncInjectUI_def patchMakeBlankerHTML_def saveJSON_def)

section \<open>Properties of the message relay\<close>

lemma well_formed_recognized: "well_formed_relay d \<Longrightarrow> recognized d"
  by (cases d) (auto simp add: well_formed_relay_def recognized_def)

text \<open>A log relay for the title Asteroids with the message hi.\<close>

lemma log_relay_example:
  "consoleLogs (message_listener
      (JObj [(''type'', JStr ''sp_log''), (''lvl'', JStr ''info''), (''msg'', JStr ''hi''),
             (''gameTitle'', JStr ''Asteroids'')]) 5 hub0) =
     [JObj [(''t'', JNum 5), (''lvl'', JStr ''info''), (''msg'', JStr ''[Asteroids] hi'')]]"
  by (simp add: message_listener_def relay_log_def relay_note_def Let_def
      hub0_def saveJSON_def push_log_def log_entry_def refresh_console_def renderConsoleLogs_def
      last_n_def MAX_LOGS_def)

text \<open>
  Claim C7, as amended: a message that is not an object, or whose \<^verbatim>\<open>type\<close> is neither
  of the two tags, is ignored; the whole state, with buffer, registry, storage, dialogs
  and exceptions, is as before.
\<close>

theorem unrecognized_message_ignored:
  "\<not> recognized data \<Longrightarrow> message_listener data now s = s"
  by (auto simp add: recognized_def message_listener_def Let_def)

theorem unrecognized_message_ignored_witness:
  "\<not> recognized foreign_message \<and> message_listener foreign_message 5 hub0 = hub0"
  using unrecognized_message_ignored [of foreign_message 5 hub0]
  by (simp add: recognized_def foreign_message_def)

text \<open>
  Claim C7 as stated covers every message that is not a well-formed relay message. A
  message that carries the tag of a log relay and nothing else is not well formed, and
  the listener appends an entry made of its missing fields to the buffer.
\<close>

theorem relay_tag_only_counterexample:
  "\<not> well_formed_relay tag_only_message \<and>
   consoleLogs hub0 = [] \<and>
   consoleLogs (message_listener tag_only_message 5 hub0) =
     [JObj [(''t'', JNum 5), (''lvl'', JUndefined), (''msg'', JStr ''[undefined] undefined'')]]"
  by (simp add: well_formed_relay_def message_listener_def relay_log_def relay_note_def Let_def
      hub0_def saveJSON_def push_log_def log_entry_def refresh_console_def renderConsoleLogs_def
      last_n_def MAX_LOGS_def tag_only_message_def)

lemma touch_note_existing:
  "map_of reg key = Some (JObj fs) \<Longrightarrow>
   touch_note proto key title text now reg =
     Inr (AList.update key
            (JObj (AList.update ''ts'' (JNum (int now)) (AList.update ''notes'' text fs))) reg,
          proto)"
  by (simp add: touch_note_def registry_slot_def write_note_def Let_def)

lemma touch_note_new:
  "map_of reg key = None \<Longrightarrow> \<not> slot_truthy (inherited_slot proto key) \<Longrightarrow>
   touch_note proto key title text now reg =
     Inr (AList.update key
            (JObj [(''title'', title), (''notes'', text), (''ts'', JNum (int now))]) reg,
          proto)"
  by (simp add: touch_note_def registry_slot_def write_note_def Let_def update_conv')

text \<open>
  A key that names a native member and has no own record: nothing is created, and the
  registry is as it was.
\<close>

lemma touch_note_native:
  "map_of reg key = None \<Longrightarrow> inherited_slot proto key = Native name \<Longrightarrow>
   touch_note proto key title text now reg =
     Inr (reg,
          if name = ''__proto__''
          then AList.update ''ts'' (JNum (int now)) (AList.update ''notes'' text proto)
          else proto)"
  by (simp add: touch_note_def registry_slot_def Let_def)

text \<open>An assignment throws only on a value that was there, so that nothing was created.\<close>

lemma touch_note_throws:
  "touch_note proto key title text now reg = Inl e \<Longrightarrow>
   slot_truthy (registry_slot proto reg key)"
  by (auto simp add: touch_note_def Let_def registry_slot_def write_note_def update_conv'
      split: if_splits sum.splits)

text \<open>Nothing but \<^verbatim>\<open>notes\<close> and \<^verbatim>\<open>ts\<close> is ever put on \<^verbatim>\<open>Object.prototype\<close>.\<close>

lemma touch_note_hands:
  assumes "touch_note proto key title text now reg = Inr (reg', proto')"
  shows "fst ` set proto' \<subseteq> fst ` set proto \<union> {''notes'', ''ts''}"
proof (cases "registry_slot proto
    (if slot_truthy (registry_slot proto reg key) then reg
     else AList.update key
            (JObj [(''title'', title), (''notes'', JStr []), (''ts'', JNum (int now))]) reg) key")
  case (Own v)
  with assms show ?thesis
    by (auto simp add: touch_note_def Let_def split: sum.splits)
next
  case (Handed v)
  then have "map_of proto key = Some v"
    by (auto simp add: registry_slot_def inherited_slot_def update_conv'
        split: option.splits if_splits)
  then have "key \<in> fst ` set proto"
    by (metis map_of_eq_None_iff option.distinct(1))
  moreover from assms Handed obtain v' where "proto' = AList.update key v' proto"
    by (auto simp add: touch_note_def Let_def split: sum.splits)
  then have "fst ` set proto' = {key} \<union> fst ` set proto"
    by (simp only: dom_update)
  ultimately show ?thesis by auto
next
  case (Native name)
  have "fst ` set (AList.update ''ts'' (JNum (int now)) (AList.update ''notes'' text proto)) =
          {''ts'', ''notes''} \<union> fst ` set proto"
    by (simp only: dom_update) auto
  moreover from assms Native have
    "proto' = proto \<or>
     proto' = AList.update ''ts'' (JNum (int now)) (AList.update ''notes'' text proto)"
    by (auto simp add: touch_note_def Let_def split: if_splits)
  ultimately show ?thesis by auto
next
  case Missing
  with assms show ?thesis
    by (simp add: touch_note_def Let_def)
qed

text \<open>
  For a note relay with key, title and text: a record that exists for the key gets the
  relayed text and the time of the relay and keeps its other fields, the title among
  them; where the key has no record and the lookup finds nothing truthy handed down,
  one is created with the relayed title and text. No other key is touched.
\<close>

lemma note_relay_ordinary_key:
  assumes "is_record d" and "get_field d ''type'' = JStr ''sp_note''"
    and "get_field d ''key'' = JStr key" and "get_field d ''gameTitle'' = JStr title"
    and "get_field d ''txt'' = JStr text"
  shows "(map_of (notesStore s) key = Some (JObj fs) \<longrightarrow>
            map_of (notesStore (message_listener d now s)) key =
              Some (JObj (AList.update ''ts'' (JNum (int now))
                            (AList.update ''notes'' (JStr text) fs))) \<and>
            get_field (get_field (JObj (notesStore (message_listener d now s))) key) ''title'' =
              get_field (JObj fs) ''title'') \<and>
         (map_of (notesStore s) key = None \<and>
          \<not> slot_truthy (inherited_slot (objectPrototype s) key) \<longrightarrow>
            map_of (notesStore (message_listener d now s)) key =
              Some (JObj [(''title'', JStr title), (''notes'', JStr text), (''ts'', JNum (int now))]))"
proof -
  have live: "truthy d" "typeof_object d"
    using assms(1) by (cases d; simp)+
  have step: "message_listener d now s = relay_note d now s"
    using live assms(2) by (simp add: message_listener_def Let_def)
  have old: "map_of (notesStore (relay_note d now s)) key =
               Some (JObj (AList.update ''ts'' (JNum (int now))
                             (AList.update ''notes'' (JStr text) fs)))"
    if "map_of (notesStore s) key = Some (JObj fs)"
    using that assms(3-5)
    by (simp add: relay_note_def touch_note_existing saveNotes_def saveJSON_def update_conv')
  have new: "map_of (notesStore (relay_note d now s)) key =
               Some (JObj [(''title'', JStr title), (''notes'', JStr text), (''ts'', JNum (int now))])"
    if "map_of (notesStore s) key = None"
      and "\<not> slot_truthy (inherited_slot (objectPrototype s) key)"
    using that assms(3-5)
    by (simp add: relay_note_def touch_note_new saveNotes_def saveJSON_def update_conv')
  show ?thesis
    using old new by (simp add: step update_conv')
qed

lemma note_relay_example:
  "map_of (notesStore (message_listener sample_note_relay 9 noted_hub)) ''g'' =
     Some (JObj [(''title'', JStr ''G''), (''notes'', JStr ''new''), (''ts'', JNum 9)]) \<and>
   map_of (notesStore (message_listener sample_note_relay 9 hub0)) ''g'' =
     Some (JObj [(''title'', JStr ''Game''), (''notes'', JStr ''new''), (''ts'', JNum 9)])"
  using note_relay_ordinary_key [of sample_note_relay "''g''" "''Game''" "''new''"
      noted_hub "[(''title'', JStr ''G''), (''notes'', JStr ''x''), (''ts'', JNum 1)]" 9]
    note_relay_ordinary_key [of sample_note_relay "''g''" "''Game''" "''new''" hub0 "[]" 9]
  by (simp add: hub0_def noted_hub_def sample_note_def sample_note_relay_def
      inherited_slot_def object_prototype_names_def)

text \<open>
  Claim C8: for every note relay, a record that exists for the relayed key gets the
  relayed text and time and keeps its title, and where the key has no record one is
  created with the relayed title and text. The listener does both for a key under
  which the lookup finds nothing handed down (\<open>note_relay_ordinary_key\<close>). For the key
  \<^verbatim>\<open>constructor\<close> on an empty registry it does not: the lookup finds the native member
  of that name, so no record is created, text and time are put on that function, and
  the registry is persisted as empty as it was. No exception is thrown.
\<close>

theorem note_relay_inherited_key:
  "well_formed_relay inherited_key_relay \<and>
   map_of (notesStore hub0) ''constructor'' = None \<and>
   notesStore (message_listener inherited_key_relay 9 hub0) = [] \<and>
   localStorage (message_listener inherited_key_relay 9 hub0) KEY_NOTES = Some (JObj []) \<and>
   thrown (message_listener inherited_key_relay 9 hub0) = []"
  by (simp add: well_formed_relay_def levels_def inherited_key_relay_def message_listener_def
      relay_note_def touch_note_def registry_slot_def inherited_slot_def
      object_prototype_names_def Let_def hub0_def saveNotes_def saveJSON_def)

section \<open>Properties of the export\<close>

text \<open>
  Claim C9, as amended: the full save is an object with exactly four fields, in this
  order: \<^verbatim>\<open>exported\<close> with the time stamp text of the host, \<^verbatim>\<open>version\<close> with the
  integer 1, \<^verbatim>\<open>notes\<close> with the note registry and \<^verbatim>\<open>consoleLogs\<close> with the log
  buffer in its order.
\<close>

theorem export_shape:
  "snd (download_all now stamp s) =
     JObj [(''exported'', JStr stamp), (''version'', JNum 1),
           (''notes'', JObj (notesStore s)), (''consoleLogs'', JArr (consoleLogs s))]"
  by (simp add: download_all_def)

theorem export_shape_witness:
  "snd (download_all 7 ''2026-01-01T00:00:00.000Z'' noted_hub) =
     JObj [(''exported'', JStr ''2026-01-01T00:00:00.000Z''), (''version'', JNum 1),
           (''notes'', JObj [(''g'', sample_note)]), (''consoleLogs'', JArr [])]"
  using export_shape [of 7 "''2026-01-01T00:00:00.000Z''" noted_hub]
  by (simp add: hub0_def noted_hub_def)

text \<open>
  Claim C9 as stated names the first field \<^verbatim>\<open>exportedAt\<close>. The exported object has
  no field of that name; the time stamp is under \<^verbatim>\<open>exported\<close>.
\<close>

theorem export_field_name_counterexample:
  "get_field (snd (download_all 7 ''2026-01-01T00:00:00.000Z'' noted_hub)) ''exportedAt''
     = JUndefined \<and>
   get_field (snd (download_all 7 ''2026-01-01T00:00:00.000Z'' noted_hub)) ''exported''
     = JStr ''2026-01-01T00:00:00.000Z''"
  by (simp add: download_all_def)

section \<open>Properties of the note registry\<close>

lemma wf_registry_update:
  "wf_registry reg \<Longrightarrow> is_record v \<Longrightarrow> wf_registry (AList.update k v reg)"
  by (induction reg) (auto simp add: wf_registry_def)

lemma wf_registry_lookup:
  "wf_registry reg \<Longrightarrow> map_of reg k = Some v \<Longrightarrow> is_record v"
  by (induction reg) (auto simp add: wf_registry_def split: if_splits)

lemma write_note_record: "write_note v text now = Inr v' \<Longrightarrow> is_record v \<Longrightarrow> is_record v'"
  by (cases v) (auto simp add: write_note_def)

text \<open>Whatever the key, a registry of records stays one.\<close>

lemma touch_note_keeps_wf:
  assumes "wf_registry reg" and "touch_note proto key title text now reg = Inr (reg', proto')"
  shows "wf_registry reg'"
proof -
  let ?reg1 = "if slot_truthy (registry_slot proto reg key) then reg
     else AList.update key
            (JObj [(''title'', title), (''notes'', JStr []), (''ts'', JNum (int now))]) reg"
  have wf1: "wf_registry ?reg1"
    using assms(1) by (simp add: wf_registry_update)
  show ?thesis
  proof (cases "registry_slot proto ?reg1 key")
    case (Own v)
    then have "map_of ?reg1 key = Some v"
      by (auto simp add: registry_slot_def inherited_slot_def split: option.splits if_splits)
    with wf1 have "is_record v" by (rule wf_registry_lookup)
    moreover from assms(2) Own obtain v' where "write_note v text now = Inr v'"
      and "reg' = AList.update key v' ?reg1"
      by (auto simp add: touch_note_def Let_def split: sum.splits)
    ultimately show ?thesis
      using wf1 write_note_record wf_registry_update by metis
  next
    case (Handed v)
    with assms(2) have "reg' = ?reg1"
      by (auto simp add: touch_note_def Let_def split: sum.splits)
    with wf1 show ?thesis by simp
  next
    case (Native name)
    with assms(2) have "reg' = ?reg1"
      by (auto simp add: touch_note_def Let_def)
    with wf1 show ?thesis by simp
  next
    case Missing
    with assms(2) show ?thesis by (simp add: touch_note_def Let_def)
  qed
qed

text \<open>
  On a key that is an own key of a registry of records, or under which the lookup
  finds nothing truthy, the steps succeed, leave the key with an own record that
  holds the text, and put nothing on \<^verbatim>\<open>Object.prototype\<close>.
\<close>

lemma touch_note_wf:
  assumes "wf_registry reg"
    and "map_of reg key = None \<Longrightarrow> \<not> slot_truthy (inherited_slot proto key)"
  obtains reg' where "touch_note proto key title text now reg = Inr (reg', proto)"
    and "wf_registry reg'" and "note_text reg' key = text"
    and "\<And>k. k \<noteq> key \<Longrightarrow> map_of reg' k = map_of reg k"
    and "map_of reg' key \<noteq> None"
proof (cases "map_of reg key")
  case None
  let ?r = "AList.update key (JObj [(''title'', title), (''notes'', text), (''ts'', JNum (int now))]) reg"
  show ?thesis
  proof (rule that [of ?r])
    show "touch_note proto key title text now reg = Inr (?r, proto)"
      using None assms(2) by (simp add: touch_note_new)
    show "wf_registry ?r" using assms(1) by (simp add: wf_registry_update)
    show "note_text ?r key = text" by (simp add: note_text_def update_conv')
    show "map_of ?r k = map_of reg k" if "k \<noteq> key" for k using that by (simp add: update_conv')
    show "map_of ?r key \<noteq> None" by (simp add: update_conv')
  qed
next
  case (Some v)
  with assms(1) have "is_record v" by (rule wf_registry_lookup)
  then obtain fs where v: "v = JObj fs" by (cases v) auto
  let ?r = "AList.update key
            (JObj (AList.update ''ts'' (JNum (int now)) (AList.update ''notes'' text fs))) reg"
  show ?thesis
  proof (rule that [of ?r])
    show "touch_note proto key title text now reg = Inr (?r, proto)"
      using Some v by (simp add: touch_note_existing)
    show "wf_registry ?r" using assms(1) by (simp add: wf_registry_update)
    show "note_text ?r key = text" by (simp add: note_text_def update_conv')
    show "map_of ?r k = map_of reg k" if "k \<noteq> key" for k using that by (simp add: update_conv')
    show "map_of ?r key \<noteq> None" by (simp add: update_conv')
  qed
qed



lemma offered_grows:
  assumes "offered s k" and "objectPrototype s' = objectPrototype s"
    and "\<And>j. map_of (notesStore s) j \<noteq> None \<Longrightarrow> map_of (notesStore s') j \<noteq> None"
  shows "offered s' k"
proof (cases "map_of (notesStore s') k")
  case None
  have "map_of (notesStore s) k = None"
  proof (rule ccontr)
    assume "map_of (notesStore s) k \<noteq> None"
    then have "map_of (notesStore s') k \<noteq> None" by (rule assms(3))
    with None show False by simp
  qed
  with assms(1,2) None show ?thesis by (simp add: offered_def)
next
  case (Some v)
  then show ?thesis by (simp add: offered_def)
qed



lemma notes_input_wf:
  assumes "currentNoteKey s = Some key" and "wf_registry (notesStore s)" and "offered s key"
  obtains reg' where "notes_input x t s = s\<lparr>notesStore := reg', noteSaveTimer := Some (t + 600)\<rparr>"
    and "wf_registry reg'" and "note_text reg' key = JStr x"
    and "\<And>k. k \<noteq> key \<Longrightarrow> map_of reg' k = map_of (notesStore s) k"
    and "\<And>j. offered s j \<Longrightarrow> offered (s\<lparr>notesStore := reg', noteSaveTimer := Some (t + 600)\<rparr>) j"
proof -
  have fresh: "\<not> slot_truthy (inherited_slot (objectPrototype s) key)"
    if "map_of (notesStore s) key = None"
    using assms(3) that by (simp add: offered_def)
  obtain reg' where r:
    "touch_note (objectPrototype s) key (resolve_title key (dbg_items s)) (JStr x) t (notesStore s)
       = Inr (reg', objectPrototype s)"
    "wf_registry reg'" "note_text reg' key = JStr x"
    "\<And>k. k \<noteq> key \<Longrightarrow> map_of reg' k = map_of (notesStore s) k"
    "map_of reg' key \<noteq> None"
    using touch_note_wf [OF assms(2) fresh] by metis
  let ?s' = "s\<lparr>notesStore := reg', noteSaveTimer := Some (t + 600)\<rparr>"
  show ?thesis
  proof (rule that [of reg'])
    show "notes_input x t s = ?s'"
      using assms(1) r(1) by (simp add: notes_input_def)
    show "offered ?s' j" if "offered s j" for j
    proof (rule offered_grows [OF that])
      show "objectPrototype ?s' = objectPrototype s" by simp
      show "map_of (notesStore ?s') i \<noteq> None" if "map_of (notesStore s) i \<noteq> None" for i
        using that r(4) [of i] r(5) by (cases "i = key") simp_all
    qed
  qed (use r in auto)
qed

text \<open>An edit replaces whatever timeout was pending, whichever key it was scheduled for.\<close>

lemma edit_reschedules:
  assumes "currentNoteKey s = Some key" and "wf_registry (notesStore s)" and "offered s key"
  shows "noteSaveTimer (notes_input x t s) = Some (t + 600)"
proof -
  obtain reg' where
    "notes_input x t s = s\<lparr>notesStore := reg', noteSaveTimer := Some (t + 600)\<rparr>"
    using notes_input_wf [OF assms] by metis
  then show ?thesis by simp
qed

text \<open>
  Every handler but the import leaves a registry of records a registry of records.
\<close>

lemma relay_log_notes: "notesStore (relay_log d now s) = notesStore s"
  by (simp add: relay_log_def Let_def refresh_console_def saveJSON_def split: sum.splits)

lemma relay_note_wf:
  assumes "wf_registry (notesStore s)"
  shows "wf_registry (notesStore (relay_note d now s))"
proof (cases "touch_note (objectPrototype s) (to_string (get_field d ''key''))
    (get_field d ''gameTitle'') (get_field d ''txt'') now (notesStore s)")
  case (Inl e)
  with assms show ?thesis by (simp add: relay_note_def)
next
  case (Inr res)
  obtain reg' proto' where res: "res = (reg', proto')" by (cases res)
  from touch_note_keeps_wf [OF assms Inr [unfolded res]] have "wf_registry reg'" .
  with Inr res show ?thesis by (simp add: relay_note_def saveNotes_def saveJSON_def)
qed

lemma message_listener_wf:
  "wf_registry (notesStore s) \<Longrightarrow> wf_registry (notesStore (message_listener d now s))"
  by (simp add: message_listener_def Let_def relay_note_wf relay_log_notes)

lemma console_method_notes: "notesStore (console_method method args now s) = notesStore s"
  by (simp add: console_method_def Let_def refresh_console_def saveJSON_def split: sum.splits)

lemma clear_all_wf: "wf_registry (notesStore s) \<Longrightarrow> wf_registry (notesStore (clear_all c s))"
  by (simp add: clear_all_def Let_def refresh_console_def saveJSON_def saveNotes_def alert_def
      wf_registry_def split: sum.splits)

lemma hub0_wf: "wf_registry (notesStore hub0)"
  by (simp add: hub0_def wf_registry_def)

lemma note_timer_fire_fields:
  "storage_log (note_timer_fire s) = storage_log s @ [(KEY_NOTES, JObj (notesStore s))]"
  "localStorage (note_timer_fire s) = (localStorage s)(KEY_NOTES \<mapsto> JObj (notesStore s))"
  "notesStore (note_timer_fire s) = notesStore s"
  "objectPrototype (note_timer_fire s) = objectPrototype s"
  "currentNoteKey (note_timer_fire s) = currentNoteKey s"
  "noteSaveTimer (note_timer_fire s) = None"
  by (simp_all add: note_timer_fire_def saveNotes_def saveJSON_def)



subsection \<open>Edits of one note\<close>




text \<open>The writes owed are one for the last edit and one for every gap of a window or more.\<close>

lemma collapse_count:
  "length (collapse edits) =
     (if edits = [] then 0
      else Suc (length (filter (\<lambda>p. fst p + 600 \<le> snd p)
                  (zip (map fst edits) (tl (map fst edits))))))"
  by (induction edits rule: collapse.induct) auto


text \<open>
  When the next event comes only after the window has passed, the run goes on from the
  settled state: what storage holds between two bursts is what it holds once the first
  has settled.
\<close>

lemma run_notes_append: "run_notes (es1 @ es2) s = run_notes es2 (run_notes es1 s)"
  by (induction es1 arbitrary: s) auto

lemma run_notes_resume:
  assumes "noteSaveTimer (run_notes es1 s) = Some due" and "due \<le> t"
  shows "run_notes (es1 @ (t, e) # es2) s =
           run_notes es2 (note_step e t (settle (run_notes es1 s)))"
  using assms by (simp add: run_notes_append flush_due_def settle_def)



subsection \<open>Edits of several notes\<close>

lemma flush_due_fields:
  "notesStore (flush_due t s) = notesStore s"
  "objectPrototype (flush_due t s) = objectPrototype s"
  "currentNoteKey (flush_due t s) = currentNoteKey s"
  by (simp_all add: flush_due_def note_timer_fire_fields split: option.splits)




lemma loadNoteForKey_fields:
  "notesStore (loadNoteForKey key s) = notesStore s"
  "objectPrototype (loadNoteForKey key s) = objectPrototype s"
  "storage_log (loadNoteForKey key s) = storage_log s"
  "localStorage (loadNoteForKey key s) = localStorage s"
  "noteSaveTimer (loadNoteForKey key s) = noteSaveTimer s"
  "currentNoteKey (loadNoteForKey key s) = (if key = [] then None else Some key)"
  by (simp_all add: loadNoteForKey_def)
















lemma notes_input_keeps_wf:
  assumes "wf_registry (notesStore s)"
  shows "wf_registry (notesStore (notes_input x t s))"
proof (cases "currentNoteKey s")
  case None
  with assms show ?thesis by (simp add: notes_input_def)
next
  case (Some key)
  show ?thesis
  proof (cases "touch_note (objectPrototype s) key (resolve_title key (dbg_items s)) (JStr x) t
      (notesStore s)")
    case (Inl e)
    with Some assms show ?thesis by (simp add: notes_input_def)
  next
    case (Inr res)
    obtain reg' proto' where res: "res = (reg', proto')" by (cases res)
    from touch_note_keeps_wf [OF assms Inr [unfolded res]] have "wf_registry reg'" .
    with Some Inr res show ?thesis by (simp add: notes_input_def)
  qed
qed

lemma run_notes_wf:
  "wf_registry (notesStore s) \<Longrightarrow> wf_registry (notesStore (run_notes es s))"
proof (induction es arbitrary: s)
  case Nil
  then show ?case by simp
next
  case (Cons e es)
  obtain t ev where e: "e = (t, ev)" by (cases e)
  have "wf_registry (notesStore (note_step ev t (flush_due t s)))"
  proof (cases ev)
    case (Select key)
    then show ?thesis using Cons.prems by (simp add: loadNoteForKey_fields flush_due_fields)
  next
    case (Input x)
    have "wf_registry (notesStore (flush_due t s))"
      using Cons.prems by (simp add: flush_due_fields)
    then show ?thesis by (simp add: Input notes_input_keeps_wf)
  qed
  from Cons.IH [OF this] show ?case by (simp add: e)
qed




subsection \<open>Switching the key while a write is pending\<close>















end
